theory Spec2Isabelle
  imports Main "HOL-Library.AList"
begin

section \<open>Data model (models.py, schemas.py)\<close>

text \<open>
  Points in time (Python \<open>datetime\<close> values) are counted in microseconds, the resolution
  of \<open>datetime\<close>. Strings are lists of characters with code points below 256.
\<close>

type_synonym datetime = int

definition timedelta_minutes :: "int \<Rightarrow> int" where
  "timedelta_minutes m = m * 60 * 1000000"

definition timedelta_days :: "int \<Rightarrow> int" where
  "timedelta_days d = d * 86400 * 1000000"

text \<open>Table \<open>users\<close>. The columns \<open>id\<close> and \<open>is_active\<close> carry the suffix \<open>_u\<close>.\<close>

record user =
  id_u :: int
  username :: string
  password_hash :: string
  is_readonly :: bool
  is_active_u :: bool

text \<open>Table \<open>tokens\<close>. The columns \<open>id\<close> and \<open>is_active\<close> carry the suffix \<open>_t\<close>.\<close>

record token =
  id_t :: int
  user_id :: int
  access_token :: string
  refresh_token :: string
  access_expires_at :: datetime
  refresh_expires_at :: datetime
  is_active_t :: bool

text \<open>
  Table \<open>students\<close>. The column \<open>grade\<close> is a float; no operation computes with it, so
  its type is the parameter \<open>'g\<close>.
\<close>

record 'g student =
  id_s :: int
  last_name :: string
  first_name :: string
  faculty :: string
  course :: string
  grade :: 'g

text \<open>The database: one list of rows per table, in the order the store returns them.\<close>

record 'g database =
  users :: "user list"
  tokens :: "token list"
  students :: "'g student list"

text \<open>Request and response bodies of the auth router.\<close>

record user_register =
  reg_username :: string
  reg_password :: string
  reg_is_readonly :: bool

record user_login =
  login_username :: string
  login_password :: string

record token_pair_out =
  out_access_token :: string
  out_refresh_token :: string
  token_type :: string

text \<open>
  Errors. Each \<open>HTTPException\<close> of the source is one of the first five kinds:
  400 "Username already exists" is \<open>DuplicateUsername\<close>;
  401 "Invalid username or password" is \<open>InvalidCredentials\<close>;
  401 with any of the token messages ("Missing access token ...", "Token expired or
  invalid", "User is inactive", "Invalid or expired refresh token") is \<open>Unauthenticated\<close>;
  403 is \<open>Forbidden\<close>; 404 is \<open>NotFound\<close>.
  \<open>StorageFailure\<close> is the \<open>IntegrityError\<close> a commit raises when a UNIQUE or NOT NULL
  constraint is violated (the transaction is rolled back);
  \<open>AttributeError\<close> is raised when \<open>token_obj.user\<close> is \<open>None\<close>.
\<close>

datatype error =
    DuplicateUsername
  | InvalidCredentials
  | Unauthenticated
  | Forbidden
  | NotFound
  | StorageFailure
  | AttributeError

text \<open>The integer primary key given to a new row: one more than the largest in the table.\<close>

definition next_id :: "int list \<Rightarrow> int" where
  "next_id ids = fold max ids 0 + 1"

section \<open>Passwords and tokens (security.py)\<close>

definition PASSWORD_SALT :: string where
  "PASSWORD_SALT = ''very-secret-salt-for-homework''"

definition ACCESS_TOKEN_LIFETIME_MINUTES :: int where
  "ACCESS_TOKEN_LIFETIME_MINUTES = 15"

definition REFRESH_TOKEN_LIFETIME_DAYS :: int where
  "REFRESH_TOKEN_LIFETIME_DAYS = 7"

text \<open>
  \<open>hashlib.sha256(s.encode("utf-8")).hexdigest()\<close> is the parameter \<open>sha256_hex\<close>:
  the digest function of the standard library.
\<close>

definition hash_password :: "(string \<Rightarrow> string) \<Rightarrow> string \<Rightarrow> string" where
  "hash_password sha256_hex raw = sha256_hex (PASSWORD_SALT @ raw)"

definition verify_password :: "(string \<Rightarrow> string) \<Rightarrow> string \<Rightarrow> string \<Rightarrow> bool" where
  "verify_password sha256_hex raw hashed = (hash_password sha256_hex raw = hashed)"

section \<open>The auth router (routers/auth.py)\<close>

text \<open>
  Every handler takes the database and returns its result with the database as the
  request leaves it. A handler that raises leaves the database as it found it: nothing
  was committed.
\<close>

definition register_user ::
  "(string \<Rightarrow> string) \<Rightarrow> user_register \<Rightarrow> 'g database \<Rightarrow> (error + string) \<times> 'g database" where
  "register_user sha256_hex payload db =
     (case find (\<lambda>u. username u = reg_username payload) (users db) of
        Some existing \<Rightarrow> (Inl DuplicateUsername, db)
      | None \<Rightarrow>
          (let user = \<lparr>id_u = next_id (map id_u (users db)),
                       username = reg_username payload,
                       password_hash = hash_password sha256_hex (reg_password payload),
                       is_readonly = reg_is_readonly payload,
                       is_active_u = True\<rparr>
           in (Inr ''User registered successfully'', db\<lparr>users := users db @ [user]\<rparr>)))"

text \<open>
  \<open>generate_token_pair()\<close> draws two random strings; the pair drawn by a call is the
  argument \<open>gen\<close>. Each call of \<open>now_utc()\<close> is an argument of its own, in the order
  of the calls. The commit of the new row fails when its access token or its refresh
  token is already stored (both columns are UNIQUE).
\<close>

definition login_user ::
  "(string \<Rightarrow> string) \<Rightarrow> string \<times> string \<Rightarrow> datetime \<Rightarrow> datetime \<Rightarrow> user_login \<Rightarrow>
   'g database \<Rightarrow> (error + token_pair_out) \<times> 'g database" where
  "login_user sha256_hex gen now1 now2 payload db =
     (case find (\<lambda>u. username u = login_username payload) (users db) of
        None \<Rightarrow> (Inl InvalidCredentials, db)
      | Some user \<Rightarrow>
          if \<not> verify_password sha256_hex (login_password payload) (password_hash user)
          then (Inl InvalidCredentials, db)
          else
            (let deactivated =
                   map (\<lambda>t. if user_id t = id_u user then t\<lparr>is_active_t := False\<rparr> else t)
                     (tokens db);
                 access = fst gen;
                 refresh = snd gen;
                 token_obj = \<lparr>id_t = next_id (map id_t (tokens db)),
                              user_id = id_u user,
                              access_token = access,
                              refresh_token = refresh,
                              access_expires_at =
                                now1 + timedelta_minutes ACCESS_TOKEN_LIFETIME_MINUTES,
                              refresh_expires_at =
                                now2 + timedelta_days REFRESH_TOKEN_LIFETIME_DAYS,
                              is_active_t = True\<rparr>
             in if access \<in> set (map access_token (tokens db))
                   \<or> refresh \<in> set (map refresh_token (tokens db))
                then (Inl StorageFailure, db)
                else (Inr \<lparr>out_access_token = access, out_refresh_token = refresh,
                           token_type = ''bearer''\<rparr>,
                      db\<lparr>tokens := deactivated @ [token_obj]\<rparr>)))"

text \<open>
  \<open>refresh_tokens\<close> reads the clock three times: for the expiry check (\<open>now0\<close>) and for
  the two new expiry timestamps. The matched row is updated by its primary key; the
  commit fails when another row already stores the new access or refresh token.
\<close>

definition refresh_tokens ::
  "string \<times> string \<Rightarrow> datetime \<Rightarrow> datetime \<Rightarrow> datetime \<Rightarrow> string \<Rightarrow>
   'g database \<Rightarrow> (error + token_pair_out) \<times> 'g database" where
  "refresh_tokens gen now0 now1 now2 payload_refresh_token db =
     (case find (\<lambda>t. refresh_token t = payload_refresh_token \<and> is_active_t t) (tokens db) of
        None \<Rightarrow> (Inl Unauthenticated, db)
      | Some token_obj \<Rightarrow>
          if refresh_expires_at token_obj < now0 then (Inl Unauthenticated, db)
          else
            (case find (\<lambda>u. id_u u = user_id token_obj) (users db) of
               None \<Rightarrow> (Inl AttributeError, db)
             | Some owner \<Rightarrow>
                 if \<not> is_active_u owner then (Inl Unauthenticated, db)
                 else
                   (let access = fst gen;
                        refresh = snd gen;
                        others = filter (\<lambda>t. id_t t \<noteq> id_t token_obj) (tokens db)
                    in if access \<in> set (map access_token others)
                          \<or> refresh \<in> set (map refresh_token others)
                       then (Inl StorageFailure, db)
                       else
                         (Inr \<lparr>out_access_token = access, out_refresh_token = refresh,
                               token_type = ''bearer''\<rparr>,
                          db\<lparr>tokens :=
                               map (\<lambda>t. if id_t t = id_t token_obj
                                         then t\<lparr>access_token := access,
                                                refresh_token := refresh,
                                                access_expires_at :=
                                                  now1 + timedelta_minutes
                                                           ACCESS_TOKEN_LIFETIME_MINUTES,
                                                refresh_expires_at :=
                                                  now2 + timedelta_days
                                                           REFRESH_TOKEN_LIFETIME_DAYS\<rparr>
                                         else t)
                                 (tokens db)\<rparr>))))"

text \<open>
  \<open>logout\<close> receives the token object its dependency resolved and clears the flag of
  that row (an UPDATE by primary key).
\<close>

definition logout :: "token \<Rightarrow> 'g database \<Rightarrow> (error + string) \<times> 'g database" where
  "logout token_obj db =
     (Inr ''Logged out successfully'',
      db\<lparr>tokens :=
           map (\<lambda>t. if id_t t = id_t token_obj then t\<lparr>is_active_t := False\<rparr> else t)
             (tokens db)\<rparr>)"

section \<open>The access control gate (security.py)\<close>

text \<open>
  \<open>str.strip()\<close> removes leading and trailing whitespace: among the code points below
  256 these are 9 to 13, 28 to 32, 133 and 160.
\<close>

definition isspace :: "char \<Rightarrow> bool" where
  "isspace c = ((of_char c :: nat) \<in> {9, 10, 11, 12, 13, 28, 29, 30, 31, 32, 133, 160})"

definition strip :: "string \<Rightarrow> string" where
  "strip s = rev (dropWhile isspace (rev (dropWhile isspace s)))"

text \<open>
  The part of a request the gate reads: the \<open>Authorization\<close> header and the query
  parameter \<open>access_token\<close>, each absent or a string.
\<close>

record request =
  authorization :: "string option"
  access_token_q :: "string option"

text \<open>
  The token string \<open>get_current_token\<close> extracts. The empty string stands for both
  \<open>None\<close> and \<open>""\<close>, which the source tests alike (\<open>if not token_str\<close>).
\<close>

definition token_str_of :: "request \<Rightarrow> string" where
  "token_str_of req =
     (let token_str =
            (case authorization req of
               None \<Rightarrow> []
             | Some auth_header \<Rightarrow>
                 if take 7 auth_header = ''Bearer '' then strip (drop 7 auth_header) else [])
      in if token_str = []
         then (case access_token_q req of
                 None \<Rightarrow> []
               | Some q \<Rightarrow> if q \<noteq> [] then strip q else [])
         else token_str)"

definition get_current_token ::
  "datetime \<Rightarrow> request \<Rightarrow> 'g database \<Rightarrow> (error + token) \<times> 'g database" where
  "get_current_token now req db =
     (let token_str = token_str_of req
      in if token_str = [] then (Inl Unauthenticated, db)
         else
           (case find (\<lambda>t. access_token t = token_str \<and> is_active_t t) (tokens db) of
              None \<Rightarrow> (Inl Unauthenticated, db)
            | Some token_obj \<Rightarrow>
                if access_expires_at token_obj < now then (Inl Unauthenticated, db)
                else
                  (case find (\<lambda>u. id_u u = user_id token_obj) (users db) of
                     None \<Rightarrow> (Inl AttributeError, db)
                   | Some owner \<Rightarrow>
                       if \<not> is_active_u owner then (Inl Unauthenticated, db)
                       else (Inr token_obj, db))))"

text \<open>\<open>token.user\<close>: the row of \<open>users\<close> the token refers to, or \<open>None\<close>.\<close>

definition get_current_user :: "token \<Rightarrow> 'g database \<Rightarrow> user option" where
  "get_current_user tok db = find (\<lambda>u. id_u u = user_id tok) (users db)"

definition require_write_user :: "user option \<Rightarrow> error + user" where
  "require_write_user u =
     (case u of
        None \<Rightarrow> Inl AttributeError
      | Some usr \<Rightarrow> if is_readonly usr then Inl Forbidden else Inr usr)"

text \<open>
  Dependency resolution (\<open>Depends\<close>): the framework calls the dependencies of a handler
  first, and calls the handler only if none of them raised.
\<close>

definition depends_current_user ::
  "datetime \<Rightarrow> request \<Rightarrow> 'g database \<Rightarrow> (error + user option) \<times> 'g database" where
  "depends_current_user now req db =
     (case get_current_token now req db of
        (Inl e, db') \<Rightarrow> (Inl e, db')
      | (Inr tok, db') \<Rightarrow> (Inr (get_current_user tok db'), db'))"

definition depends_write_user ::
  "datetime \<Rightarrow> request \<Rightarrow> 'g database \<Rightarrow> (error + user) \<times> 'g database" where
  "depends_write_user now req db =
     (case depends_current_user now req db of
        (Inl e, db') \<Rightarrow> (Inl e, db')
      | (Inr u, db') \<Rightarrow> (require_write_user u, db'))"

text \<open>The route \<open>POST /auth/logout\<close>: \<open>logout\<close> behind \<open>Depends(get_current_token)\<close>.\<close>

definition post_logout ::
  "datetime \<Rightarrow> request \<Rightarrow> 'g database \<Rightarrow> (error + string) \<times> 'g database" where
  "post_logout now req db =
     (case get_current_token now req db of
        (Inl e, db') \<Rightarrow> (Inl e, db')
      | (Inr tok, db') \<Rightarrow> logout tok db')"

section \<open>The cache (cache.py)\<close>

text \<open>
  Modelled from the spec: the store behind \<open>redis_client\<close>, a Redis server the repository
  only calls (section 4.3: \<open>get(key)\<close> returns the value or a miss, \<open>put(key, value, ttl)\<close>
  stores an entry that lives for \<open>ttl\<close>, \<open>invalidate(pattern)\<close> removes the entries whose key
  matches a glob pattern). The store is a list of entries: key, value and the time at
  which the entry expires. Times of the cache are readings of the server's clock in
  milliseconds; a TTL is given in seconds. An entry is live at time \<open>now\<close> when
  \<open>now\<close> is earlier than its expiry; commands see live entries only.
\<close>

type_synonym 'v redis = "(string \<times> 'v \<times> int) list"

definition redis_get :: "int \<Rightarrow> string \<Rightarrow> 'v redis \<Rightarrow> 'v option" where
  "redis_get now k c =
     (case map_of c k of
        None \<Rightarrow> None
      | Some (v, expires) \<Rightarrow> if now < expires then Some v else None)"

text \<open>\<open>SETEX key ttl value\<close>; the server rejects a TTL that is not positive.\<close>

definition redis_setex :: "int \<Rightarrow> string \<Rightarrow> int \<Rightarrow> 'v \<Rightarrow> 'v redis \<Rightarrow> 'v redis" where
  "redis_setex now k ttl v c =
     (if ttl \<le> 0 then c else AList.update k (v, now + ttl * 1000) c)"

definition redis_delete :: "string \<Rightarrow> 'v redis \<Rightarrow> 'v redis" where
  "redis_delete k c = AList.delete k c"

text \<open>
  Modelled from the spec: glob matching of keys, for patterns built from literal
  characters, \<open>*\<close> (any sequence of characters) and \<open>?\<close> (any one character).
\<close>

fun glob_match :: "string \<Rightarrow> string \<Rightarrow> bool" where
  "glob_match [] s = (s = [])"
| "glob_match (p # ps) [] = (p = CHR ''*'' \<and> glob_match ps [])"
| "glob_match (p # ps) (c # cs) =
     (if p = CHR ''*'' then glob_match ps (c # cs) \<or> glob_match (p # ps) cs
      else if p = CHR ''?'' then glob_match ps cs
      else p = c \<and> glob_match ps cs)"

text \<open>\<open>scan_iter(pattern)\<close>: the keys of the live entries that match the pattern.\<close>

definition redis_scan_iter :: "int \<Rightarrow> string \<Rightarrow> 'v redis \<Rightarrow> string list" where
  "redis_scan_iter now pattern c =
     filter (\<lambda>k. glob_match pattern k \<and> redis_get now k c \<noteq> None) (map fst c)"

text \<open>From cache.py: delete every key the scan for \<open>students:*\<close> yields.\<close>

definition invalidate_students_cache :: "int \<Rightarrow> 'v redis \<Rightarrow> 'v redis" where
  "invalidate_students_cache now c =
     fold redis_delete (redis_scan_iter now ''students:*'' c) c"

section \<open>The students repository (repositories.py)\<close>

text \<open>The fields of \<open>StudentCreate\<close>: a student without its primary key.\<close>

record 'g student_create =
  new_last_name :: string
  new_first_name :: string
  new_faculty :: string
  new_course :: string
  new_grade :: 'g

text \<open>
  \<open>StudentUpdate\<close> with \<open>exclude_unset\<close>: a field is unset (\<open>None\<close>), or set to null
  (\<open>Some None\<close>), or set to a value.
\<close>

record 'g student_update =
  upd_last_name :: "string option option"
  upd_first_name :: "string option option"
  upd_faculty :: "string option option"
  upd_course :: "string option option"
  upd_grade :: "'g option option"

text \<open>An INSERT into \<open>students\<close>: the new row receives the next primary key.\<close>

definition insert_student :: "'g student_create \<Rightarrow> 'g database \<Rightarrow> 'g student \<times> 'g database" where
  "insert_student data db =
     (let student = \<lparr>id_s = next_id (map id_s (students db)),
                     last_name = new_last_name data,
                     first_name = new_first_name data,
                     faculty = new_faculty data,
                     course = new_course data,
                     grade = new_grade data\<rparr>
      in (student, db\<lparr>students := students db @ [student]\<rparr>))"

definition StudentsRepository_create ::
  "'g student_create \<Rightarrow> 'g database \<Rightarrow> 'g student \<times> 'g database" where
  "StudentsRepository_create data db = insert_student data db"

definition StudentsRepository_get :: "int \<Rightarrow> 'g database \<Rightarrow> 'g student option" where
  "StudentsRepository_get student_id db = find (\<lambda>s. id_s s = student_id) (students db)"

definition StudentsRepository_list :: "'g database \<Rightarrow> 'g student list" where
  "StudentsRepository_list db = students db"

text \<open>\<open>setattr\<close> for each field that is set; a field set to null keeps no value.\<close>

definition set_field :: "'a option option \<Rightarrow> 'a \<Rightarrow> 'a" where
  "set_field f old = (case f of Some (Some v) \<Rightarrow> v | _ \<Rightarrow> old)"

definition apply_update :: "'g student_update \<Rightarrow> 'g student \<Rightarrow> 'g student" where
  "apply_update data s =
     s\<lparr>last_name := set_field (upd_last_name data) (last_name s),
       first_name := set_field (upd_first_name data) (first_name s),
       faculty := set_field (upd_faculty data) (faculty s),
       course := set_field (upd_course data) (course s),
       grade := set_field (upd_grade data) (grade s)\<rparr>"

definition sets_null :: "'g student_update \<Rightarrow> bool" where
  "sets_null data =
     (upd_last_name data = Some None \<or> upd_first_name data = Some None
      \<or> upd_faculty data = Some None \<or> upd_course data = Some None
      \<or> upd_grade data = Some None)"

text \<open>
  \<open>update\<close> returns \<open>None\<close> when the row is missing. All columns are NOT NULL: the commit
  of an update that sets a field to null fails and nothing is written.
\<close>

definition StudentsRepository_update ::
  "int \<Rightarrow> 'g student_update \<Rightarrow> 'g database \<Rightarrow> (error + 'g student option) \<times> 'g database" where
  "StudentsRepository_update student_id data db =
     (case find (\<lambda>s. id_s s = student_id) (students db) of
        None \<Rightarrow> (Inr None, db)
      | Some student \<Rightarrow>
          if sets_null data then (Inl StorageFailure, db)
          else (Inr (Some (apply_update data student)),
                db\<lparr>students :=
                     map (\<lambda>s. if id_s s = student_id then apply_update data s else s)
                       (students db)\<rparr>))"

definition StudentsRepository_delete :: "int \<Rightarrow> 'g database \<Rightarrow> bool \<times> 'g database" where
  "StudentsRepository_delete student_id db =
     (case find (\<lambda>s. id_s s = student_id) (students db) of
        None \<Rightarrow> (False, db)
      | Some student \<Rightarrow>
          (True, db\<lparr>students := filter (\<lambda>s. id_s s \<noteq> student_id) (students db)\<rparr>))"

section \<open>The students router (routers/students.py)\<close>

text \<open>
  A cached value is the JSON text of a list of students or of one student;
  \<open>json.loads\<close> of \<open>json.dumps\<close> gives the value back, so the value itself is stored.
  The text is never empty, so the test \<open>if cached\<close> holds for every hit.
\<close>

datatype 'g cached = CachedList "'g student list" | CachedItem "'g student"

datatype task = ImportCsv string | BulkDelete "int list"

text \<open>
  The state a request of this router works on: the database, the cache, and the
  background tasks scheduled so far.
\<close>

record 'g app =
  app_db :: "'g database"
  app_cache :: "'g cached redis"
  background_tasks :: "task list"

text \<open>\<open>str\<close> of an integer, and of a list of integers.\<close>

fun str_nat :: "nat \<Rightarrow> string" where
  "str_nat n =
     (if n < 10 then [char_of (48 + n)]
      else str_nat (n div 10) @ [char_of (48 + n mod 10)])"

definition str_int :: "int \<Rightarrow> string" where
  "str_int i = (if i < 0 then CHR ''-'' # str_nat (nat (- i)) else str_nat (nat i))"

fun join_comma :: "string list \<Rightarrow> string" where
  "join_comma [] = []"
| "join_comma [x] = x"
| "join_comma (x # y # ys) = x @ '', '' @ join_comma (y # ys)"

definition str_int_list :: "int list \<Rightarrow> string" where
  "str_int_list ids = ''['' @ join_comma (map str_int ids) @ '']''"

text \<open>
  A row of the CSV file as \<open>csv.DictReader\<close> yields it: for each of the columns
  that hold the last name, the first name, the faculty, the course and the grade (the
  file names them in Russian) the cell, or \<open>None\<close> when the row has none.
\<close>

record csv_row =
  col_last_name :: "string option"
  col_first_name :: "string option"
  col_faculty :: "string option"
  col_course :: "string option"
  col_grade :: "string option"

definition or_empty :: "string option \<Rightarrow> string" where
  "or_empty x = (case x of None \<Rightarrow> [] | Some v \<Rightarrow> v)"

text \<open>
  One turn of the import loop: the student a row gives, or \<open>None\<close> where the loop
  continues. \<open>float\<close> is the parameter \<open>parse_float\<close> (\<open>None\<close> for a \<open>ValueError\<close>).
\<close>

definition student_of_row :: "(string \<Rightarrow> 'g option) \<Rightarrow> csv_row \<Rightarrow> 'g student_create option" where
  "student_of_row parse_float row =
     (if or_empty (col_last_name row) = [] \<or> or_empty (col_first_name row) = [] then None
      else
        (let course_name = strip (or_empty (col_course row))
         in if course_name = [] then None
            else
              (case col_grade row of
                 None \<Rightarrow> None
               | Some cell \<Rightarrow>
                   (case parse_float cell of
                      None \<Rightarrow> None
                    | Some g \<Rightarrow>
                        Some \<lparr>new_last_name = strip (or_empty (col_last_name row)),
                              new_first_name = strip (or_empty (col_first_name row)),
                              new_faculty = strip (or_empty (col_faculty row)),
                              new_course = course_name,
                              new_grade = g\<rparr>))))"

text \<open>
  The background tasks. \<open>read_csv\<close> is the file system: the rows of the file at a path,
  or \<open>None\<close> when it cannot be opened or read, in which case the task ends with the
  exception and writes nothing.
\<close>

definition import_students_from_csv_task ::
  "(string \<Rightarrow> 'g option) \<Rightarrow> (string \<Rightarrow> csv_row list option) \<Rightarrow> int \<Rightarrow> string \<Rightarrow>
   'g app \<Rightarrow> 'g app" where
  "import_students_from_csv_task parse_float read_csv rnow csv_path st =
     (case read_csv csv_path of
        None \<Rightarrow> st
      | Some rows \<Rightarrow>
          st\<lparr>app_db := fold (\<lambda>row d. case student_of_row parse_float row of
                                    None \<Rightarrow> d
                                  | Some data \<Rightarrow> snd (insert_student data d))
                     rows (app_db st),
             app_cache := invalidate_students_cache rnow (app_cache st)\<rparr>)"

definition bulk_delete_students_task :: "int \<Rightarrow> int list \<Rightarrow> 'g app \<Rightarrow> 'g app" where
  "bulk_delete_students_task rnow ids st =
     (if ids = [] then st
      else st\<lparr>app_db := (app_db st)\<lparr>students := filter (\<lambda>s. id_s s \<notin> set ids) (students (app_db st))\<rparr>,
              app_cache := invalidate_students_cache rnow (app_cache st)\<rparr>)"

text \<open>
  The handlers, with their dependencies resolved. \<open>rnow\<close> is the reading of the cache
  server's clock at which the handler's cache commands run.
\<close>

definition import_students_from_csv :: "string \<Rightarrow> 'g app \<Rightarrow> (error + string) \<times> 'g app" where
  "import_students_from_csv path st =
     (Inr (''CSV import scheduled for path: '' @ path),
      st\<lparr>background_tasks := background_tasks st @ [ImportCsv path]\<rparr>)"

definition bulk_delete_students :: "int list \<Rightarrow> 'g app \<Rightarrow> (error + string) \<times> 'g app" where
  "bulk_delete_students ids st =
     (if ids = [] then (Inr ''No IDs provided, nothing to delete'', st)
      else (Inr (''Bulk delete scheduled for ids: '' @ str_int_list ids),
            st\<lparr>background_tasks := background_tasks st @ [BulkDelete ids]\<rparr>))"

definition create_student ::
  "int \<Rightarrow> 'g student_create \<Rightarrow> 'g app \<Rightarrow> (error + 'g student) \<times> 'g app" where
  "create_student rnow payload st =
     (case StudentsRepository_create payload (app_db st) of
        (student, db') \<Rightarrow>
          (Inr student,
           st\<lparr>app_db := db', app_cache := invalidate_students_cache rnow (app_cache st)\<rparr>))"

definition list_students :: "int \<Rightarrow> 'g app \<Rightarrow> (error + 'g cached) \<times> 'g app" where
  "list_students rnow st =
     (case redis_get rnow ''students:list'' (app_cache st) of
        Some cached \<Rightarrow> (Inr cached, st)
      | None \<Rightarrow>
          (let data = CachedList (StudentsRepository_list (app_db st))
           in (Inr data, st\<lparr>app_cache := redis_setex rnow ''students:list'' 60 data (app_cache st)\<rparr>)))"

definition get_student :: "int \<Rightarrow> int \<Rightarrow> 'g app \<Rightarrow> (error + 'g cached) \<times> 'g app" where
  "get_student rnow student_id st =
     (let cache_key = ''students:'' @ str_int student_id
      in case redis_get rnow cache_key (app_cache st) of
           Some cached \<Rightarrow> (Inr cached, st)
         | None \<Rightarrow>
             (case StudentsRepository_get student_id (app_db st) of
                None \<Rightarrow> (Inl NotFound, st)
              | Some student \<Rightarrow>
                  (let data = CachedItem student
                   in (Inr data, st\<lparr>app_cache := redis_setex rnow cache_key 60 data (app_cache st)\<rparr>))))"

definition update_student ::
  "int \<Rightarrow> int \<Rightarrow> 'g student_update \<Rightarrow> 'g app \<Rightarrow> (error + 'g student) \<times> 'g app" where
  "update_student rnow student_id payload st =
     (case StudentsRepository_update student_id payload (app_db st) of
        (Inl e, db') \<Rightarrow> (Inl e, st)
      | (Inr None, db') \<Rightarrow> (Inl NotFound, st)
      | (Inr (Some student), db') \<Rightarrow>
          (Inr student,
           st\<lparr>app_db := db', app_cache := invalidate_students_cache rnow (app_cache st)\<rparr>))"

definition delete_student :: "int \<Rightarrow> int \<Rightarrow> 'g app \<Rightarrow> (error + unit) \<times> 'g app" where
  "delete_student rnow student_id st =
     (case StudentsRepository_delete student_id (app_db st) of
        (False, db') \<Rightarrow> (Inl NotFound, st)
      | (True, db') \<Rightarrow>
          (Inr (),
           st\<lparr>app_db := db', app_cache := invalidate_students_cache rnow (app_cache st)\<rparr>))"

text \<open>
  The routes: each handler behind its dependency. The write routes depend on
  \<open>require_write_user\<close>, the read routes on \<open>get_current_user\<close>; the handler runs only
  when the dependency did not raise. \<open>now\<close> is the clock reading of the token check.
\<close>

definition with_write_user ::
  "datetime \<Rightarrow> request \<Rightarrow> ('g app \<Rightarrow> (error + 'r) \<times> 'g app) \<Rightarrow> 'g app \<Rightarrow> (error + 'r) \<times> 'g app" where
  "with_write_user now req handler st =
     (case depends_write_user now req (app_db st) of
        (Inl e, db') \<Rightarrow> (Inl e, st\<lparr>app_db := db'\<rparr>)
      | (Inr usr, db') \<Rightarrow> handler (st\<lparr>app_db := db'\<rparr>))"

definition with_current_user ::
  "datetime \<Rightarrow> request \<Rightarrow> ('g app \<Rightarrow> (error + 'r) \<times> 'g app) \<Rightarrow> 'g app \<Rightarrow> (error + 'r) \<times> 'g app" where
  "with_current_user now req handler st =
     (case depends_current_user now req (app_db st) of
        (Inl e, db') \<Rightarrow> (Inl e, st\<lparr>app_db := db'\<rparr>)
      | (Inr usr, db') \<Rightarrow> handler (st\<lparr>app_db := db'\<rparr>))"

definition route_import_csv ::
  "datetime \<Rightarrow> request \<Rightarrow> string \<Rightarrow> 'g app \<Rightarrow> (error + string) \<times> 'g app" where
  "route_import_csv now req path = with_write_user now req (import_students_from_csv path)"

definition route_bulk_delete ::
  "datetime \<Rightarrow> request \<Rightarrow> int list \<Rightarrow> 'g app \<Rightarrow> (error + string) \<times> 'g app" where
  "route_bulk_delete now req ids = with_write_user now req (bulk_delete_students ids)"

definition route_create_student ::
  "datetime \<Rightarrow> int \<Rightarrow> request \<Rightarrow> 'g student_create \<Rightarrow> 'g app \<Rightarrow> (error + 'g student) \<times> 'g app" where
  "route_create_student now rnow req payload = with_write_user now req (create_student rnow payload)"

definition route_update_student ::
  "datetime \<Rightarrow> int \<Rightarrow> request \<Rightarrow> int \<Rightarrow> 'g student_update \<Rightarrow> 'g app \<Rightarrow>
   (error + 'g student) \<times> 'g app" where
  "route_update_student now rnow req student_id payload =
     with_write_user now req (update_student rnow student_id payload)"

definition route_delete_student ::
  "datetime \<Rightarrow> int \<Rightarrow> request \<Rightarrow> int \<Rightarrow> 'g app \<Rightarrow> (error + unit) \<times> 'g app" where
  "route_delete_student now rnow req student_id =
     with_write_user now req (delete_student rnow student_id)"

definition route_list_students ::
  "datetime \<Rightarrow> int \<Rightarrow> request \<Rightarrow> 'g app \<Rightarrow> (error + 'g cached) \<times> 'g app" where
  "route_list_students now rnow req = with_current_user now req (list_students rnow)"

definition route_get_student ::
  "datetime \<Rightarrow> int \<Rightarrow> request \<Rightarrow> int \<Rightarrow> 'g app \<Rightarrow> (error + 'g cached) \<times> 'g app" where
  "route_get_student now rnow req student_id =
     with_current_user now req (get_student rnow student_id)"


section \<open>Worked examples\<close>

text \<open>
  Concrete data for the instances below. \<open>toy_digest\<close> stands in for the digest function
  there; the token strings have the lengths \<open>secrets.token_urlsafe\<close> produces (43 and 64
  characters).
\<close>

definition toy_digest :: "string \<Rightarrow> string" where
  "toy_digest s = rev s"

definition alice :: user where
  "alice = \<lparr>id_u = 1, username = ''alice'',
            password_hash = toy_digest (PASSWORD_SALT @ ''secret''),
            is_readonly = False, is_active_u = True\<rparr>"

definition bob :: user where
  "bob = \<lparr>id_u = 2, username = ''bob'',
          password_hash = toy_digest (PASSWORD_SALT @ ''secret123''),
          is_readonly = True, is_active_u = True\<rparr>"

definition access_A :: string where
  "access_A = ''AAAAAAAAAAAAAAAAAAAAAAAAAAAAAAAAAAAAAAAAAAA''"

definition refresh_A :: string where
  "refresh_A = ''RRRRRRRRRRRRRRRRRRRRRRRRRRRRRRRRRRRRRRRRRRRRRRRRRRRRRRRRRRRRRRRR''"

definition access_B :: string where
  "access_B = ''BBBBBBBBBBBBBBBBBBBBBBBBBBBBBBBBBBBBBBBBBBB''"

definition refresh_B :: string where
  "refresh_B = ''SSSSSSSSSSSSSSSSSSSSSSSSSSSSSSSSSSSSSSSSSSSSSSSSSSSSSSSSSSSSSSSS''"

definition access_C :: string where
  "access_C = ''CCCCCCCCCCCCCCCCCCCCCCCCCCCCCCCCCCCCCCCCCCC''"

definition refresh_C :: string where
  "refresh_C = ''TTTTTTTTTTTTTTTTTTTTTTTTTTTTTTTTTTTTTTTTTTTTTTTTTTTTTTTTTTTTTTTT''"

definition token_A :: token where
  "token_A = \<lparr>id_t = 1, user_id = 1, access_token = access_A, refresh_token = refresh_A,
              access_expires_at = 900000000, refresh_expires_at = 604800000000,
              is_active_t = True\<rparr>"

definition db_A :: "nat database" where
  "db_A = \<lparr>users = [alice, bob], tokens = [token_A], students = []\<rparr>"

definition request_A :: request where
  "request_A = \<lparr>authorization = Some (''Bearer '' @ access_A), access_token_q = None\<rparr>"

definition login_alice :: user_login where
  "login_alice = \<lparr>login_username = ''alice'', login_password = ''secret''\<rparr>"

definition token_bob :: token where
  "token_bob = \<lparr>id_t = 2, user_id = 2, access_token = access_B, refresh_token = refresh_B,
                access_expires_at = 900000000, refresh_expires_at = 604800000000,
                is_active_t = True\<rparr>"

definition request_bob :: request where
  "request_bob = \<lparr>authorization = None, access_token_q = Some access_B\<rparr>"

definition ivanov :: "nat student" where
  "ivanov = \<lparr>id_s = 1, last_name = ''Ivanov'', first_name = ''Ivan'', faculty = ''FKN'',
             course = ''1'', grade = 75\<rparr>"

definition petrov_new :: "nat student_create" where
  "petrov_new = \<lparr>new_last_name = ''Petrov'', new_first_name = ''Petr'', new_faculty = ''FIVT'',
                 new_course = ''2'', new_grade = 80\<rparr>"

definition upd_grade_90 :: "nat student_update" where
  "upd_grade_90 = \<lparr>upd_last_name = None, upd_first_name = None, upd_faculty = None,
                   upd_course = None, upd_grade = Some (Some 90)\<rparr>"

definition db_S :: "nat database" where
  "db_S = \<lparr>users = [alice, bob], tokens = [token_A, token_bob], students = [ivanov]\<rparr>"

definition cache_S :: "nat cached redis" where
  "cache_S = [(''students:list'', CachedList [ivanov], 60500),
              (''students:1'', CachedItem ivanov, 100),
              (''sessions'', CachedList [], 60900)]"

definition app_S :: "nat app" where
  "app_S = \<lparr>app_db = db_S, app_cache = cache_S, background_tasks = []\<rparr>"

definition toy_parse :: "string \<Rightarrow> nat option" where
  "toy_parse cell = (if cell = ''80'' then Some 80 else None)"

definition csv_files :: "string \<Rightarrow> csv_row list option" where
  "csv_files path =
     (if path = ''students.csv''
      then Some [\<lparr>col_last_name = Some ''Petrov '', col_first_name = Some ''Petr'',
                   col_faculty = None, col_course = Some '' 2'', col_grade = Some ''80''\<rparr>,
                 \<lparr>col_last_name = Some ''Sidorov'', col_first_name = Some ''Ilya'',
                   col_faculty = Some ''FNB'', col_course = Some ''3'', col_grade = Some ''n/a''\<rparr>]
      else None)"

definition reg_carol :: user_register where
  "reg_carol = \<lparr>reg_username = ''carol'', reg_password = ''qwerty'', reg_is_readonly = False\<rparr>"

definition reg_dave :: user_register where
  "reg_dave = \<lparr>reg_username = ''dave'', reg_password = ''qwerty'', reg_is_readonly = True\<rparr>"

lemmas example_defs = reg_carol_def reg_dave_def token_bob_def request_bob_def ivanov_def
  petrov_new_def upd_grade_90_def db_S_def cache_S_def app_S_def toy_parse_def
  csv_files_def toy_digest_def alice_def bob_def access_A_def refresh_A_def access_B_def
  refresh_B_def access_C_def refresh_C_def token_A_def db_A_def
  request_A_def login_alice_def

lemmas auth_defs = PASSWORD_SALT_def hash_password_def verify_password_def next_id_def
  timedelta_minutes_def timedelta_days_def ACCESS_TOKEN_LIFETIME_MINUTES_def
  REFRESH_TOKEN_LIFETIME_DAYS_def Let_def register_user_def login_user_def refresh_tokens_def
  logout_def isspace_def strip_def token_str_of_def get_current_token_def
  get_current_user_def require_write_user_def depends_current_user_def
  depends_write_user_def post_logout_def


lemmas students_defs = insert_student_def StudentsRepository_create_def
  StudentsRepository_get_def StudentsRepository_list_def set_field_def apply_update_def
  sets_null_def StudentsRepository_update_def StudentsRepository_delete_def str_int_def
  str_int_list_def or_empty_def student_of_row_def import_students_from_csv_task_def
  bulk_delete_students_task_def import_students_from_csv_def bulk_delete_students_def
  create_student_def list_students_def get_student_def update_student_def delete_student_def
  with_write_user_def with_current_user_def route_import_csv_def route_bulk_delete_def
  route_create_student_def route_update_student_def route_delete_student_def
  route_list_students_def route_get_student_def

section \<open>Helper lemmas\<close>

lemma fold_max_ge: "a \<le> fold max xs (a::int)"
proof (induction xs arbitrary: a)
  case Nil
  show ?case by simp
next
  case (Cons y ys)
  have "a \<le> max y a" by simp
  also have "\<dots> \<le> fold max ys (max y a)" by (rule Cons.IH)
  finally show ?case by simp
qed

lemma fold_max_mem: "x \<in> set xs \<Longrightarrow> x \<le> fold max xs (a::int)"
proof (induction xs arbitrary: a)
  case Nil
  then show ?case by simp
next
  case (Cons y ys)
  show ?case
  proof (cases "x = y")
    case True
    have "max y a \<le> fold max ys (max y a)" by (rule fold_max_ge)
    with True show ?thesis by simp
  next
    case False
    with Cons show ?thesis by simp
  qed
qed

lemma next_id_fresh: "next_id ids \<notin> set ids"
proof
  assume "next_id ids \<in> set ids"
  then have "next_id ids \<le> fold max ids 0" by (rule fold_max_mem)
  then show False by (simp add: next_id_def)
qed

lemma distinct_map_eq:
  "distinct (map f xs) \<Longrightarrow> x \<in> set xs \<Longrightarrow> y \<in> set xs \<Longrightarrow> f x = f y \<Longrightarrow> x = y"
  by (meson distinct_map inj_onD)

lemma find_SomeD: "find P xs = Some x \<Longrightarrow> P x \<and> x \<in> set xs"
  by (auto simp: find_Some_iff)

lemma find_append_fresh:
  "find P xs = None \<Longrightarrow> find P (xs @ ys) = find P ys"
  by (induction xs) (auto split: if_splits)

lemma find_append_Some:
  "find P xs = Some x \<Longrightarrow> find P (xs @ ys) = Some x"
  by (induction xs) (auto split: if_splits)

section \<open>Password hashing\<close>

lemma register_user_success:
  assumes "register_user sha p db = (Inr m, db')"
  shows "find (\<lambda>u. username u = reg_username p) (users db) = None
       \<and> users db' = users db @
            [\<lparr>id_u = next_id (map id_u (users db)), username = reg_username p,
              password_hash = hash_password sha (reg_password p),
              is_readonly = reg_is_readonly p, is_active_u = True\<rparr>]"
  using assms unfolding register_user_def Let_def
  by (auto split: option.splits)

text \<open>
  C10. Password hashing is a pure function of the raw password with one constant salt:
  \<open>hash_password raw\<close> is the digest of the salt followed by \<open>raw\<close>;
  \<open>verify_password raw hashed\<close> holds exactly when \<open>hashed\<close> is \<open>hash_password raw\<close>;
  and two users who register one after the other with the same password are stored
  with the same password hash.
\<close>

theorem hash_password_constant_salt:
  "hash_password sha raw = sha (''very-secret-salt-for-homework'' @ raw)
   \<and> (verify_password sha raw hashed \<longleftrightarrow> hashed = hash_password sha raw)
   \<and> (\<forall>p1 p2 db m1 db1 m2 db2.
         register_user sha p1 db = (Inr m1, db1)
         \<and> register_user sha p2 db1 = (Inr m2, db2)
         \<and> reg_password p1 = reg_password p2
         \<longrightarrow> (\<exists>u1 u2.
                find (\<lambda>u. username u = reg_username p1) (users db2) = Some u1
                \<and> find (\<lambda>u. username u = reg_username p2) (users db2) = Some u2
                \<and> id_u u1 \<noteq> id_u u2
                \<and> password_hash u1 = hash_password sha (reg_password p1)
                \<and> password_hash u2 = password_hash u1))"
proof (intro conjI allI impI)
  show "hash_password sha raw = sha (''very-secret-salt-for-homework'' @ raw)"
    by (simp add: hash_password_def PASSWORD_SALT_def)
  show "verify_password sha raw hashed \<longleftrightarrow> hashed = hash_password sha raw"
    by (auto simp: verify_password_def)
next
  fix p1 p2 :: user_register and db db1 db2 :: "'a database" and m1 m2
  assume h: "register_user sha p1 db = (Inr m1, db1)
         \<and> register_user sha p2 db1 = (Inr m2, db2)
         \<and> reg_password p1 = reg_password p2"
  let ?u1 = "\<lparr>id_u = next_id (map id_u (users db)), username = reg_username p1,
              password_hash = hash_password sha (reg_password p1),
              is_readonly = reg_is_readonly p1, is_active_u = True\<rparr>"
  let ?u2 = "\<lparr>id_u = next_id (map id_u (users db1)), username = reg_username p2,
              password_hash = hash_password sha (reg_password p2),
              is_readonly = reg_is_readonly p2, is_active_u = True\<rparr>"
  from h register_user_success[of sha p1 db m1 db1]
  have n1: "find (\<lambda>u. username u = reg_username p1) (users db) = None"
    and u1: "users db1 = users db @ [?u1]" by auto
  from h register_user_success[of sha p2 db1 m2 db2]
  have n2: "find (\<lambda>u. username u = reg_username p2) (users db1) = None"
    and u2: "users db2 = users db1 @ [?u2]" by auto
  have f1: "find (\<lambda>u. username u = reg_username p1) (users db1) = Some ?u1"
    unfolding u1 using n1 by (simp add: find_append_fresh)
  have g1: "find (\<lambda>u. username u = reg_username p1) (users db2) = Some ?u1"
    unfolding u2 using f1 by (rule find_append_Some)
  have g2: "find (\<lambda>u. username u = reg_username p2) (users db2) = Some ?u2"
    unfolding u2 using n2 by (simp add: find_append_fresh)
  have "id_u ?u1 \<in> set (map id_u (users db1))" unfolding u1 by simp
  then have ne: "id_u ?u1 \<noteq> id_u ?u2"
    using next_id_fresh[of "map id_u (users db1)"] by auto
  from h have "password_hash ?u2 = password_hash ?u1" by simp
  with g1 g2 ne
  show "\<exists>u1 u2.
          find (\<lambda>u. username u = reg_username p1) (users db2) = Some u1
          \<and> find (\<lambda>u. username u = reg_username p2) (users db2) = Some u2
          \<and> id_u u1 \<noteq> id_u u2
          \<and> password_hash u1 = hash_password sha (reg_password p1)
          \<and> password_hash u2 = password_hash u1"
    by (intro exI[of _ ?u1] exI[of _ ?u2]) simp
qed

theorem hash_password_constant_salt_witness:
  "fst (register_user toy_digest reg_carol db_A) = Inr ''User registered successfully''
   \<and> fst (register_user toy_digest reg_dave (snd (register_user toy_digest reg_carol db_A)))
       = Inr ''User registered successfully''
   \<and> reg_password reg_carol = reg_password reg_dave
   \<and> (\<exists>u1 u2.
         find (\<lambda>u. username u = reg_username reg_carol)
           (users (snd (register_user toy_digest reg_dave
                     (snd (register_user toy_digest reg_carol db_A))))) = Some u1
         \<and> find (\<lambda>u. username u = reg_username reg_dave)
             (users (snd (register_user toy_digest reg_dave
                       (snd (register_user toy_digest reg_carol db_A))))) = Some u2
         \<and> id_u u1 \<noteq> id_u u2
         \<and> password_hash u1 = hash_password toy_digest (reg_password reg_carol)
         \<and> password_hash u2 = password_hash u1)"
proof -
  let ?db1 = "snd (register_user toy_digest reg_carol db_A)"
  let ?db2 = "snd (register_user toy_digest reg_dave ?db1)"
  have f1: "fst (register_user toy_digest reg_carol db_A) = Inr ''User registered successfully''"
    by (simp add: auth_defs example_defs)
  have f2: "fst (register_user toy_digest reg_dave ?db1) = Inr ''User registered successfully''"
    by (simp add: auth_defs example_defs)
  have h1: "register_user toy_digest reg_carol db_A = (Inr ''User registered successfully'', ?db1)"
    using f1 by (simp add: prod_eq_iff)
  have h2: "register_user toy_digest reg_dave ?db1 = (Inr ''User registered successfully'', ?db2)"
    using f2 by (simp add: prod_eq_iff)
  have h3: "reg_password reg_carol = reg_password reg_dave"
    by (simp add: example_defs)
  note c = hash_password_constant_salt[of toy_digest "[]" "[]", THEN conjunct2, THEN conjunct2,
      rule_format, OF conjI[OF h1 conjI[OF h2 h3]]]
  show ?thesis
    by (intro conjI f1 f2 h3 c)
qed

section \<open>Login\<close>

lemma login_user_success:
  assumes "login_user sha gen n1 n2 p db = (Inr out, db')"
  shows "\<exists>u. find (\<lambda>u. username u = login_username p) (users db) = Some u
     \<and> fst gen \<notin> set (map access_token (tokens db))
     \<and> snd gen \<notin> set (map refresh_token (tokens db))
     \<and> out = \<lparr>out_access_token = fst gen, out_refresh_token = snd gen,
               token_type = ''bearer''\<rparr>
     \<and> users db' = users db
     \<and> tokens db' =
           map (\<lambda>t. if user_id t = id_u u then t\<lparr>is_active_t := False\<rparr> else t) (tokens db)
           @ [\<lparr>id_t = next_id (map id_t (tokens db)), user_id = id_u u,
               access_token = fst gen, refresh_token = snd gen,
               access_expires_at = n1 + timedelta_minutes ACCESS_TOKEN_LIFETIME_MINUTES,
               refresh_expires_at = n2 + timedelta_days REFRESH_TOKEN_LIFETIME_DAYS,
               is_active_t = True\<rparr>]"
  using assms unfolding login_user_def Let_def
  by (auto split: option.splits if_splits)

lemma filter_deactivated:
  "filter (\<lambda>t. user_id t = i \<and> is_active_t t)
     (map (\<lambda>t. if user_id t = i then t\<lparr>is_active_t := False\<rparr> else t) ts) = []"
  by (induction ts) auto

text \<open>
  C8. A login whose username is unknown, or whose password does not verify against the
  stored hash, fails with \<open>InvalidCredentials\<close> and leaves the database as it was: no
  token row is added and none is deactivated.
\<close>

theorem login_user_invalid_credentials:
  assumes "login_username p \<notin> set (map username (users db))
         \<or> (\<exists>u. find (\<lambda>u. username u = login_username p) (users db) = Some u
                \<and> \<not> verify_password sha (login_password p) (password_hash u))"
  shows "fst (login_user sha gen n1 n2 p db) = Inl InvalidCredentials
       \<and> snd (login_user sha gen n1 n2 p db) = db
       \<and> tokens (snd (login_user sha gen n1 n2 p db)) = tokens db"
proof -
  have "login_user sha gen n1 n2 p db = (Inl InvalidCredentials, db)"
  proof (cases "find (\<lambda>u. username u = login_username p) (users db)")
    case None
    then show ?thesis by (simp add: login_user_def)
  next
    case (Some u)
    then have "username u = login_username p" and "u \<in> set (users db)"
      by (auto dest: find_SomeD)
    then have "login_username p \<in> set (map username (users db))"
      by force
    with assms Some have "\<not> verify_password sha (login_password p) (password_hash u)"
      by auto
    with Some show ?thesis by (simp add: login_user_def)
  qed
  then show ?thesis by simp
qed

theorem login_user_invalid_credentials_witness:
  "find (\<lambda>u. username u = ''alice'') (users db_A) = Some alice
   \<and> \<not> verify_password toy_digest ''wrong'' (password_hash alice)
   \<and> fst (login_user toy_digest (access_B, refresh_B) 5 6
            \<lparr>login_username = ''alice'', login_password = ''wrong''\<rparr> db_A)
       = Inl InvalidCredentials
   \<and> snd (login_user toy_digest (access_B, refresh_B) 5 6
            \<lparr>login_username = ''alice'', login_password = ''wrong''\<rparr> db_A) = db_A
   \<and> ''mallory'' \<notin> set (map username (users db_A))
   \<and> fst (login_user toy_digest (access_B, refresh_B) 5 6
            \<lparr>login_username = ''mallory'', login_password = ''secret''\<rparr> db_A)
       = Inl InvalidCredentials
   \<and> tokens (snd (login_user toy_digest (access_B, refresh_B) 5 6
            \<lparr>login_username = ''mallory'', login_password = ''secret''\<rparr> db_A)) = [token_A]"
proof -
  have a: "find (\<lambda>u. username u = ''alice'') (users db_A) = Some alice"
    by (simp add: example_defs)
  have b: "\<not> verify_password toy_digest ''wrong'' (password_hash alice)"
    by (simp add: auth_defs example_defs)
  have c: "''mallory'' \<notin> set (map username (users db_A))"
    by (simp add: example_defs)
  have d: "tokens db_A = [token_A]"
    by (simp add: db_A_def)
  have h1: "login_username \<lparr>login_username = ''alice'', login_password = ''wrong''\<rparr>
              \<notin> set (map username (users db_A))
         \<or> (\<exists>u. find (\<lambda>u. username u
                    = login_username \<lparr>login_username = ''alice'', login_password = ''wrong''\<rparr>)
                  (users db_A) = Some u
                \<and> \<not> verify_password toy_digest
                    (login_password \<lparr>login_username = ''alice'', login_password = ''wrong''\<rparr>)
                    (password_hash u))"
    using a b by simp
  have h2: "login_username \<lparr>login_username = ''mallory'', login_password = ''secret''\<rparr>
              \<notin> set (map username (users db_A))
         \<or> (\<exists>u. find (\<lambda>u. username u
                    = login_username \<lparr>login_username = ''mallory'', login_password = ''secret''\<rparr>)
                  (users db_A) = Some u
                \<and> \<not> verify_password toy_digest
                    (login_password \<lparr>login_username = ''mallory'', login_password = ''secret''\<rparr>)
                    (password_hash u))"
    using c by simp
  note r1 = login_user_invalid_credentials[OF h1, of "(access_B, refresh_B)" 5 6]
  note r2 = login_user_invalid_credentials[OF h2, of "(access_B, refresh_B)" 5 6]
  show ?thesis
    using a b c r1 r2 d by simp
qed

text \<open>
  C1. After a successful login at most one token pair of the user is active: the pair
  just inserted. Every pair of that user stored before is in the table with
  \<open>is_active = False\<close>, and a second successful login of the same user leaves the pair
  issued by the first one stored and inactive.
\<close>

theorem login_user_at_most_one_active:
  assumes ok: "login_user sha gen n1 n2 p db = (Inr out, db1)"
      and usr: "find (\<lambda>u. username u = login_username p) (users db) = Some u"
  shows "length (filter (\<lambda>t. user_id t = id_u u \<and> is_active_t t) (tokens db1)) \<le> 1
       \<and> (\<forall>t \<in> set (tokens db). user_id t = id_u u
             \<longrightarrow> t\<lparr>is_active_t := False\<rparr> \<in> set (tokens db1))
       \<and> (\<forall>t \<in> set (tokens db1). user_id t = id_u u \<and> is_active_t t
             \<longrightarrow> access_token t = out_access_token out
                 \<and> refresh_token t = out_refresh_token out)
       \<and> (\<forall>gen' m1 m2 p' out2 db2.
             login_username p' = login_username p
             \<and> login_user sha gen' m1 m2 p' db1 = (Inr out2, db2)
             \<longrightarrow> length (filter (\<lambda>t. user_id t = id_u u \<and> is_active_t t) (tokens db2)) \<le> 1
                 \<and> (\<exists>t \<in> set (tokens db2).
                       access_token t = out_access_token out
                       \<and> refresh_token t = out_refresh_token out
                       \<and> user_id t = id_u u \<and> \<not> is_active_t t)
                 \<and> (\<forall>t \<in> set (tokens db2).
                       access_token t = out_access_token out \<longrightarrow> \<not> is_active_t t))"
proof -
  let ?off = "\<lambda>t. if user_id t = id_u u then t\<lparr>is_active_t := False\<rparr> else t"
  let ?new = "\<lparr>id_t = next_id (map id_t (tokens db)), user_id = id_u u,
               access_token = fst gen, refresh_token = snd gen,
               access_expires_at = n1 + timedelta_minutes ACCESS_TOKEN_LIFETIME_MINUTES,
               refresh_expires_at = n2 + timedelta_days REFRESH_TOKEN_LIFETIME_DAYS,
               is_active_t = True\<rparr>"
  from login_user_success[OF ok] usr
  have fresh: "fst gen \<notin> set (map access_token (tokens db))"
    and out: "out = \<lparr>out_access_token = fst gen, out_refresh_token = snd gen,
                     token_type = ''bearer''\<rparr>"
    and us1: "users db1 = users db"
    and tk1: "tokens db1 = map ?off (tokens db) @ [?new]"
    by auto
  have one: "length (filter (\<lambda>t. user_id t = id_u u \<and> is_active_t t) (tokens db1)) \<le> 1"
    unfolding tk1 by (simp add: filter_deactivated)
  have prior: "\<forall>t \<in> set (tokens db). user_id t = id_u u
             \<longrightarrow> t\<lparr>is_active_t := False\<rparr> \<in> set (tokens db1)"
    unfolding tk1 by force
  have only: "\<forall>t \<in> set (tokens db1). user_id t = id_u u \<and> is_active_t t
             \<longrightarrow> access_token t = out_access_token out
                 \<and> refresh_token t = out_refresh_token out"
    unfolding tk1 out by auto
  have twice: "length (filter (\<lambda>t. user_id t = id_u u \<and> is_active_t t) (tokens db2)) \<le> 1
                 \<and> (\<exists>t \<in> set (tokens db2).
                       access_token t = out_access_token out
                       \<and> refresh_token t = out_refresh_token out
                       \<and> user_id t = id_u u \<and> \<not> is_active_t t)
                 \<and> (\<forall>t \<in> set (tokens db2).
                       access_token t = out_access_token out \<longrightarrow> \<not> is_active_t t)"
    if same: "login_username p' = login_username p"
      and ok2: "login_user sha gen' m1 m2 p' db1 = (Inr out2, db2)"
    for gen' m1 m2 p' out2 db2
  proof -
    let ?new2 = "\<lparr>id_t = next_id (map id_t (tokens db1)), user_id = id_u u,
               access_token = fst gen', refresh_token = snd gen',
               access_expires_at = m1 + timedelta_minutes ACCESS_TOKEN_LIFETIME_MINUTES,
               refresh_expires_at = m2 + timedelta_days REFRESH_TOKEN_LIFETIME_DAYS,
               is_active_t = True\<rparr>"
    from usr us1 same
    have usr2: "find (\<lambda>u. username u = login_username p') (users db1) = Some u" by simp
    from login_user_success[OF ok2] usr2
    have fresh2: "fst gen' \<notin> set (map access_token (tokens db1))"
      and tk2: "tokens db2 = map ?off (tokens db1) @ [?new2]"
      by auto
    have ne: "fst gen' \<noteq> fst gen" using fresh2 unfolding tk1 by auto
    have a: "length (filter (\<lambda>t. user_id t = id_u u \<and> is_active_t t) (tokens db2)) \<le> 1"
      unfolding tk2 by (simp add: filter_deactivated)
    have "?new\<lparr>is_active_t := False\<rparr> \<in> set (tokens db2)"
      unfolding tk2 tk1 by simp
    then have b: "\<exists>t \<in> set (tokens db2).
                       access_token t = out_access_token out
                       \<and> refresh_token t = out_refresh_token out
                       \<and> user_id t = id_u u \<and> \<not> is_active_t t"
      unfolding out by (intro bexI[of _ "?new\<lparr>is_active_t := False\<rparr>"]) simp_all
    have c: "\<forall>t \<in> set (tokens db2).
                       access_token t = out_access_token out \<longrightarrow> \<not> is_active_t t"
    proof (intro ballI impI)
      fix t assume tin: "t \<in> set (tokens db2)" and acc: "access_token t = out_access_token out"
      from tin have "t = ?new2 \<or> t \<in> set (map ?off (tokens db1))" unfolding tk2 by auto
      then show "\<not> is_active_t t"
      proof
        assume "t = ?new2"
        with acc ne out show ?thesis by simp
      next
        assume "t \<in> set (map ?off (tokens db1))"
        then obtain s where sin: "s \<in> set (tokens db1)" and ts: "t = ?off s" by auto
        from sin have "s = ?new \<or> s \<in> set (map ?off (tokens db))" unfolding tk1 by auto
        then show ?thesis
        proof
          assume "s = ?new"
          with ts show ?thesis by simp
        next
          assume "s \<in> set (map ?off (tokens db))"
          then obtain s0 where s0: "s0 \<in> set (tokens db)" and ss: "s = ?off s0" by auto
          have "access_token t = access_token s0" using ts ss by simp
          with acc out have "fst gen = access_token s0" by simp
          with fresh s0 show ?thesis by auto
        qed
      qed
    qed
    from a b c show ?thesis by blast
  qed
  from one prior only twice show ?thesis by blast
qed

theorem login_user_at_most_one_active_witness:
  "fst (login_user toy_digest (access_B, refresh_B) 5 6 login_alice db_A)
     = Inr \<lparr>out_access_token = access_B, out_refresh_token = refresh_B,
            token_type = ''bearer''\<rparr>
   \<and> find (\<lambda>u. username u = login_username login_alice) (users db_A) = Some alice
   \<and> length (filter (\<lambda>t. user_id t = id_u alice \<and> is_active_t t)
        (tokens (snd (login_user toy_digest (access_B, refresh_B) 5 6 login_alice db_A)))) \<le> 1
   \<and> token_A\<lparr>is_active_t := False\<rparr>
        \<in> set (tokens (snd (login_user toy_digest (access_B, refresh_B) 5 6 login_alice db_A)))
   \<and> fst (login_user toy_digest (access_C, refresh_C) 7 8 login_alice
          (snd (login_user toy_digest (access_B, refresh_B) 5 6 login_alice db_A)))
     = Inr \<lparr>out_access_token = access_C, out_refresh_token = refresh_C,
            token_type = ''bearer''\<rparr>
   \<and> (\<exists>t \<in> set (tokens (snd (login_user toy_digest (access_C, refresh_C) 7 8 login_alice
          (snd (login_user toy_digest (access_B, refresh_B) 5 6 login_alice db_A))))).
         access_token t = access_B \<and> refresh_token t = refresh_B
         \<and> user_id t = id_u alice \<and> \<not> is_active_t t)"
proof -
  let ?out1 = "\<lparr>out_access_token = access_B, out_refresh_token = refresh_B,
            token_type = ''bearer''\<rparr>"
  let ?out2 = "\<lparr>out_access_token = access_C, out_refresh_token = refresh_C,
            token_type = ''bearer''\<rparr>"
  let ?db1 = "snd (login_user toy_digest (access_B, refresh_B) 5 6 login_alice db_A)"
  let ?db2 = "snd (login_user toy_digest (access_C, refresh_C) 7 8 login_alice ?db1)"
  have f1: "fst (login_user toy_digest (access_B, refresh_B) 5 6 login_alice db_A) = Inr ?out1"
    by (simp add: auth_defs example_defs)
  have f2: "fst (login_user toy_digest (access_C, refresh_C) 7 8 login_alice ?db1) = Inr ?out2"
    by (simp add: auth_defs example_defs)
  have ok1: "login_user toy_digest (access_B, refresh_B) 5 6 login_alice db_A = (Inr ?out1, ?db1)"
    using f1 by (simp add: prod_eq_iff)
  have ok2: "login_user toy_digest (access_C, refresh_C) 7 8 login_alice ?db1 = (Inr ?out2, ?db2)"
    using f2 by (simp add: prod_eq_iff)
  have usr: "find (\<lambda>u. username u = login_username login_alice) (users db_A) = Some alice"
    by (simp add: example_defs)
  have mem: "token_A \<in> set (tokens db_A)"
    by (simp add: db_A_def)
  have own: "user_id token_A = id_u alice"
    by (simp add: example_defs)
  note c = login_user_at_most_one_active[OF ok1 usr]
  note c1 = c[THEN conjunct1]
  note c2 = c[THEN conjunct2, THEN conjunct1, rule_format, OF mem own]
  note c4 = c[THEN conjunct2, THEN conjunct2, THEN conjunct2, rule_format,
      OF conjI[OF refl ok2], THEN conjunct2, THEN conjunct1]
  have c4': "\<exists>t \<in> set (tokens ?db2).
         access_token t = access_B \<and> refresh_token t = refresh_B
         \<and> user_id t = id_u alice \<and> \<not> is_active_t t"
    using c4 by simp
  show ?thesis
    by (intro conjI f1 usr c1 c2 f2 c4')
qed

section \<open>Validation of access tokens\<close>

lemma get_current_token_presented:
  assumes "token_str_of req = tok" and "tok \<noteq> []"
  shows "get_current_token now req db =
     (case find (\<lambda>t. access_token t = tok \<and> is_active_t t) (tokens db) of
        None \<Rightarrow> (Inl Unauthenticated, db)
      | Some token_obj \<Rightarrow>
          if access_expires_at token_obj < now then (Inl Unauthenticated, db)
          else
            (case find (\<lambda>u. id_u u = user_id token_obj) (users db) of
               None \<Rightarrow> (Inl AttributeError, db)
             | Some owner \<Rightarrow>
                 if \<not> is_active_u owner then (Inl Unauthenticated, db)
                 else (Inr token_obj, db)))"
  using assms by (simp add: get_current_token_def Let_def)

lemma token_str_of_bearer:
  assumes "strip tok = tok" and "tok \<noteq> []"
  shows "token_str_of \<lparr>authorization = Some (''Bearer '' @ tok), access_token_q = q\<rparr> = tok"
  using assms by (simp add: token_str_of_def)

text \<open>
  C3. For a presented access-token string (the non-empty string the gate extracts from
  the request), validation fails with \<open>Unauthenticated\<close> exactly when no active token
  pair has that access token, or the matching pair's \<open>access_expires_at\<close> is earlier
  than the clock reading, or the owning user is inactive. In particular it fails for an
  expired pair that is still marked active. On success it returns the owning user.
\<close>

theorem validate_access_unauthenticated_iff:
  assumes "token_str_of req = tok" and "tok \<noteq> []"
  shows "(fst (depends_current_user now req db) = Inl Unauthenticated \<longleftrightarrow>
            (\<not> (\<exists>t \<in> set (tokens db). access_token t = tok \<and> is_active_t t)
             \<or> (\<exists>t. find (\<lambda>t. access_token t = tok \<and> is_active_t t) (tokens db) = Some t
                    \<and> (access_expires_at t < now
                        \<or> (\<exists>u. find (\<lambda>u. id_u u = user_id t) (users db) = Some u
                                \<and> \<not> is_active_u u)))))
       \<and> (\<forall>t. find (\<lambda>t. access_token t = tok \<and> is_active_t t) (tokens db) = Some t
               \<and> is_active_t t \<and> access_expires_at t < now
             \<longrightarrow> fst (depends_current_user now req db) = Inl Unauthenticated)
       \<and> (\<forall>r. fst (depends_current_user now req db) = Inr r
             \<longrightarrow> (\<exists>t u. find (\<lambda>t. access_token t = tok \<and> is_active_t t) (tokens db) = Some t
                        \<and> find (\<lambda>u. id_u u = user_id t) (users db) = Some u
                        \<and> is_active_u u \<and> r = Some u))"
proof -
  note run = get_current_token_presented[OF assms, of now db]
  show ?thesis
  proof (cases "find (\<lambda>t. access_token t = tok \<and> is_active_t t) (tokens db)")
    case None
    then have "\<not> (\<exists>t \<in> set (tokens db). access_token t = tok \<and> is_active_t t)"
      by (auto simp: find_None_iff)
    with None run show ?thesis
      by (simp add: depends_current_user_def)
  next
    case (Some t)
    then have ex: "\<exists>t \<in> set (tokens db). access_token t = tok \<and> is_active_t t"
      by (auto dest: find_SomeD)
    show ?thesis
    proof (cases "find (\<lambda>u. id_u u = user_id t) (users db)")
      case None
      with Some ex run show ?thesis
        by (simp add: depends_current_user_def get_current_user_def)
    next
      case owner: (Some u)
      with Some ex run show ?thesis
        by (simp add: depends_current_user_def get_current_user_def)
    qed
  qed
qed

theorem validate_access_unauthenticated_iff_witness:
  "token_str_of request_A = access_A \<and> access_A \<noteq> []
   \<and> find (\<lambda>t. access_token t = access_A \<and> is_active_t t) (tokens db_A) = Some token_A
   \<and> is_active_t token_A \<and> access_expires_at token_A < 900000001
   \<and> fst (depends_current_user 900000001 request_A db_A) = Inl Unauthenticated
   \<and> fst (depends_current_user 10 request_A db_A) = Inr (Some alice)
   \<and> (\<exists>t u. find (\<lambda>t. access_token t = access_A \<and> is_active_t t) (tokens db_A) = Some t
            \<and> find (\<lambda>u. id_u u = user_id t) (users db_A) = Some u
            \<and> is_active_u u \<and> Some alice = Some u)"
proof -
  have h1: "token_str_of request_A = access_A"
    by (simp add: auth_defs example_defs)
  have h2: "access_A \<noteq> []"
    by (simp add: access_A_def)
  have fnd: "find (\<lambda>t. access_token t = access_A \<and> is_active_t t) (tokens db_A) = Some token_A"
    by (simp add: example_defs)
  have act: "is_active_t token_A"
    by (simp add: token_A_def)
  have exp: "access_expires_at token_A < 900000001"
    by (simp add: token_A_def)
  have good: "fst (depends_current_user 10 request_A db_A) = Inr (Some alice)"
    by (simp add: auth_defs example_defs)
  note late = validate_access_unauthenticated_iff[OF h1 h2, of 900000001 db_A,
      THEN conjunct2, THEN conjunct1, rule_format, OF conjI[OF fnd conjI[OF act exp]]]
  note owner = validate_access_unauthenticated_iff[OF h1 h2, of 10 db_A,
      THEN conjunct2, THEN conjunct2, rule_format, OF good]
  show ?thesis
    by (intro conjI h1 h2 fnd act exp late good owner)
qed

text \<open>
  C9. Validation has no side effect on the token store: whether it succeeds or fails,
  the database it leaves is the one it was given, so every field of every stored token
  pair, the two expiry timestamps among them, is unchanged.
\<close>

theorem validate_access_no_side_effect:
  "snd (get_current_token now req db) = db
   \<and> snd (depends_current_user now req db) = db
   \<and> tokens (snd (depends_current_user now req db)) = tokens db
   \<and> map access_expires_at (tokens (snd (depends_current_user now req db)))
       = map access_expires_at (tokens db)
   \<and> map refresh_expires_at (tokens (snd (depends_current_user now req db)))
       = map refresh_expires_at (tokens db)"
proof -
  have a: "snd (get_current_token now req db) = db"
    unfolding get_current_token_def Let_def
    by (simp split: option.splits)
  have b: "snd (depends_current_user now req db) = db"
  proof (cases "get_current_token now req db")
    case (Pair r db')
    with a have "db' = db" by simp
    with Pair show ?thesis
      by (cases r) (simp_all add: depends_current_user_def)
  qed
  from a b show ?thesis by simp
qed

theorem validate_access_no_side_effect_witness:
  "snd (depends_current_user 10 request_A db_A) = db_A
   \<and> map access_expires_at (tokens (snd (depends_current_user 900000001 request_A db_A)))
       = [900000000]"
proof -
  have e: "map access_expires_at (tokens db_A) = [900000000]"
    by (simp add: example_defs)
  note a = validate_access_no_side_effect[of 10 request_A db_A, THEN conjunct2, THEN conjunct1]
  note b = validate_access_no_side_effect[of 900000001 request_A db_A, THEN conjunct2,
      THEN conjunct2, THEN conjunct2, THEN conjunct1]
  show ?thesis
    using a b e by simp
qed

section \<open>Logout\<close>







section \<open>Rotation of refresh tokens\<close>

lemma refresh_tokens_success:
  assumes "find (\<lambda>t. refresh_token t = r \<and> is_active_t t) (tokens db) = Some tok"
      and "\<not> refresh_expires_at tok < now0"
      and "find (\<lambda>u. id_u u = user_id tok) (users db) = Some owner"
      and "is_active_u owner"
      and "fst gen \<notin> set (map access_token (filter (\<lambda>t. id_t t \<noteq> id_t tok) (tokens db)))"
      and "snd gen \<notin> set (map refresh_token (filter (\<lambda>t. id_t t \<noteq> id_t tok) (tokens db)))"
  shows "refresh_tokens gen now0 now1 now2 r db =
     (Inr \<lparr>out_access_token = fst gen, out_refresh_token = snd gen, token_type = ''bearer''\<rparr>,
      db\<lparr>tokens :=
           map (\<lambda>t. if id_t t = id_t tok
                     then t\<lparr>access_token := fst gen, refresh_token := snd gen,
                            access_expires_at :=
                              now1 + timedelta_minutes ACCESS_TOKEN_LIFETIME_MINUTES,
                            refresh_expires_at :=
                              now2 + timedelta_days REFRESH_TOKEN_LIFETIME_DAYS\<rparr>
                     else t)
             (tokens db)\<rparr>)"
  using assms unfolding refresh_tokens_def Let_def by simp

lemma refresh_tokens_no_match:
  "find (\<lambda>t. refresh_token t = r \<and> is_active_t t) (tokens db) = None \<Longrightarrow>
   refresh_tokens gen now0 now1 now2 r db = (Inl Unauthenticated, db)"
  unfolding refresh_tokens_def by simp

text \<open>
  C2, as the specification states it, does not hold: nothing in \<open>refresh_tokens\<close> compares
  the generated pair with the stored one. When the generator returns the strings the
  row already holds, the call succeeds, the returned pair equals the input pair, and
  the old refresh token is accepted again.
\<close>

theorem refresh_tokens_same_pair_counterexample:
  "distinct (map refresh_token (tokens db_A))
   \<and> find (\<lambda>t. refresh_token t = refresh_A \<and> is_active_t t) (tokens db_A) = Some token_A
   \<and> \<not> refresh_expires_at token_A < 10
   \<and> find (\<lambda>u. id_u u = user_id token_A) (users db_A) = Some alice
   \<and> is_active_u alice
   \<and> fst (refresh_tokens (access_A, refresh_A) 10 11 12 refresh_A db_A)
       = Inr \<lparr>out_access_token = access_token token_A,
              out_refresh_token = refresh_token token_A, token_type = ''bearer''\<rparr>
   \<and> fst (refresh_tokens (access_B, refresh_B) 20 21 22 refresh_A
            (snd (refresh_tokens (access_A, refresh_A) 10 11 12 refresh_A db_A)))
       \<noteq> Inl Unauthenticated"
  by (simp add: auth_defs example_defs)

text \<open>
  C2, amended. Let the refresh-token column be free of duplicates (it is UNIQUE), let
  \<open>r\<close> be the refresh token of an active, unexpired pair of an active user, and let the
  generated access and refresh strings not be stored in the table yet. Then
  \<open>refresh_tokens\<close> returns the generated pair; the table keeps its length and its rows,
  except that the matched row carries the new token values and the new expiry
  timestamps; both returned values differ from the input pair's; and any later call
  presenting \<open>r\<close> fails with \<open>Unauthenticated\<close>.
\<close>

theorem refresh_tokens_rotates_in_place:
  assumes uniq: "distinct (map refresh_token (tokens db))"
      and found: "find (\<lambda>t. refresh_token t = r \<and> is_active_t t) (tokens db) = Some tok"
      and unexpired: "\<not> refresh_expires_at tok < now0"
      and owner: "find (\<lambda>u. id_u u = user_id tok) (users db) = Some owner"
      and active: "is_active_u owner"
      and fresh_a: "fst gen \<notin> set (map access_token (tokens db))"
      and fresh_r: "snd gen \<notin> set (map refresh_token (tokens db))"
  shows "fst (refresh_tokens gen now0 now1 now2 r db) =
            Inr \<lparr>out_access_token = fst gen, out_refresh_token = snd gen,
                 token_type = ''bearer''\<rparr>
       \<and> length (tokens (snd (refresh_tokens gen now0 now1 now2 r db))) = length (tokens db)
       \<and> (\<forall>i < length (tokens db).
             tokens (snd (refresh_tokens gen now0 now1 now2 r db)) ! i =
               (if id_t (tokens db ! i) = id_t tok
                then (tokens db ! i)\<lparr>access_token := fst gen, refresh_token := snd gen,
                       access_expires_at :=
                         now1 + timedelta_minutes ACCESS_TOKEN_LIFETIME_MINUTES,
                       refresh_expires_at :=
                         now2 + timedelta_days REFRESH_TOKEN_LIFETIME_DAYS\<rparr>
                else tokens db ! i))
       \<and> users (snd (refresh_tokens gen now0 now1 now2 r db)) = users db
       \<and> students (snd (refresh_tokens gen now0 now1 now2 r db)) = students db
       \<and> fst gen \<noteq> access_token tok \<and> snd gen \<noteq> refresh_token tok
       \<and> refresh_token tok = r
       \<and> (\<forall>gen' m0 m1 m2.
             refresh_tokens gen' m0 m1 m2 r (snd (refresh_tokens gen now0 now1 now2 r db))
               = (Inl Unauthenticated, snd (refresh_tokens gen now0 now1 now2 r db)))"
proof -
  let ?upd = "\<lambda>t. if id_t t = id_t tok
                     then t\<lparr>access_token := fst gen, refresh_token := snd gen,
                            access_expires_at :=
                              now1 + timedelta_minutes ACCESS_TOKEN_LIFETIME_MINUTES,
                            refresh_expires_at :=
                              now2 + timedelta_days REFRESH_TOKEN_LIFETIME_DAYS\<rparr>
                     else t"
  let ?db' = "db\<lparr>tokens := map ?upd (tokens db)\<rparr>"
  from found have tok_in: "tok \<in> set (tokens db)" and tok_r: "refresh_token tok = r"
    by (auto dest: find_SomeD)
  have fa: "fst gen \<notin> set (map access_token (filter (\<lambda>t. id_t t \<noteq> id_t tok) (tokens db)))"
    using fresh_a by auto
  have fr: "snd gen \<notin> set (map refresh_token (filter (\<lambda>t. id_t t \<noteq> id_t tok) (tokens db)))"
    using fresh_r by auto
  have run: "refresh_tokens gen now0 now1 now2 r db =
            (Inr \<lparr>out_access_token = fst gen, out_refresh_token = snd gen,
                  token_type = ''bearer''\<rparr>, ?db')"
    by (rule refresh_tokens_success[OF found unexpired owner active fa fr])
  have ne_a: "fst gen \<noteq> access_token tok" using fresh_a tok_in by auto
  have ne_r: "snd gen \<noteq> refresh_token tok" using fresh_r tok_in by auto
  have no_match: "find (\<lambda>t. refresh_token t = r \<and> is_active_t t) (tokens ?db') = None"
  proof -
    have upd_no: "\<not> (refresh_token (?upd t) = r \<and> is_active_t (?upd t))"
      if "t \<in> set (tokens db)" for t
    proof (cases "id_t t = id_t tok")
      case True
      then show ?thesis using ne_r tok_r by simp
    next
      case False
      then have "t \<noteq> tok" by auto
      then have "refresh_token t \<noteq> refresh_token tok"
        using distinct_map_eq[OF uniq that tok_in] by auto
      with False tok_r show ?thesis by simp
    qed
    have "\<not> (\<exists>x. x \<in> set (tokens ?db') \<and> (refresh_token x = r \<and> is_active_t x))"
    proof
      assume "\<exists>x. x \<in> set (tokens ?db') \<and> (refresh_token x = r \<and> is_active_t x)"
      then obtain x where xin: "x \<in> set (tokens ?db')"
        and px: "refresh_token x = r \<and> is_active_t x" by blast
      from xin obtain t where tin: "t \<in> set (tokens db)" and xt: "x = ?upd t" by auto
      from upd_no[OF tin] px xt show False by blast
    qed
    then show ?thesis unfolding find_None_iff .
  qed
  have again: "refresh_tokens gen' m0 m1 m2 r ?db' = (Inl Unauthenticated, ?db')"
    for gen' m0 m1 m2
    by (rule refresh_tokens_no_match[OF no_match])
  have nth: "\<forall>i < length (tokens db). tokens ?db' ! i = ?upd (tokens db ! i)"
    by simp
  show ?thesis
    unfolding run using ne_a ne_r tok_r again nth by simp
qed

theorem refresh_tokens_rotates_in_place_witness:
  "distinct (map refresh_token (tokens db_A))
   \<and> find (\<lambda>t. refresh_token t = refresh_A \<and> is_active_t t) (tokens db_A) = Some token_A
   \<and> \<not> refresh_expires_at token_A < 10
   \<and> find (\<lambda>u. id_u u = user_id token_A) (users db_A) = Some alice
   \<and> is_active_u alice
   \<and> fst (access_B, refresh_B) \<notin> set (map access_token (tokens db_A))
   \<and> snd (access_B, refresh_B) \<notin> set (map refresh_token (tokens db_A))
   \<and> fst (refresh_tokens (access_B, refresh_B) 10 11 12 refresh_A db_A) =
       Inr \<lparr>out_access_token = fst (access_B, refresh_B),
            out_refresh_token = snd (access_B, refresh_B), token_type = ''bearer''\<rparr>
   \<and> length (tokens (snd (refresh_tokens (access_B, refresh_B) 10 11 12 refresh_A db_A)))
       = length (tokens db_A)
   \<and> tokens (snd (refresh_tokens (access_B, refresh_B) 10 11 12 refresh_A db_A))
       = [token_A\<lparr>access_token := access_B, refresh_token := refresh_B,
                  access_expires_at := 900000011, refresh_expires_at := 604800000012\<rparr>]
   \<and> refresh_tokens (access_C, refresh_C) 20 21 22 refresh_A
        (snd (refresh_tokens (access_B, refresh_B) 10 11 12 refresh_A db_A))
       = (Inl Unauthenticated, snd (refresh_tokens (access_B, refresh_B) 10 11 12 refresh_A db_A))"
proof -
  have h1: "distinct (map refresh_token (tokens db_A))"
    by (simp add: example_defs)
  have h2: "find (\<lambda>t. refresh_token t = refresh_A \<and> is_active_t t) (tokens db_A) = Some token_A"
    by (simp add: example_defs)
  have h3: "\<not> refresh_expires_at token_A < 10"
    by (simp add: example_defs)
  have h4: "find (\<lambda>u. id_u u = user_id token_A) (users db_A) = Some alice"
    by (simp add: example_defs)
  have h5: "is_active_u alice"
    by (simp add: example_defs)
  have h6: "fst (access_B, refresh_B) \<notin> set (map access_token (tokens db_A))"
    by (simp add: example_defs)
  have h7: "snd (access_B, refresh_B) \<notin> set (map refresh_token (tokens db_A))"
    by (simp add: example_defs)
  have v: "tokens (snd (refresh_tokens (access_B, refresh_B) 10 11 12 refresh_A db_A))
       = [token_A\<lparr>access_token := access_B, refresh_token := refresh_B,
                  access_expires_at := 900000011, refresh_expires_at := 604800000012\<rparr>]"
    by (simp add: auth_defs example_defs)
  note c = refresh_tokens_rotates_in_place[OF h1 h2 h3 h4 h5 h6 h7, of 11 12]
  note c1 = c[THEN conjunct1]
  note c2 = c[THEN conjunct2, THEN conjunct1]
  note c9 = c[THEN conjunct2, THEN conjunct2, THEN conjunct2, THEN conjunct2, THEN conjunct2,
      THEN conjunct2, THEN conjunct2, THEN conjunct2, rule_format,
      of "(access_C, refresh_C)" 20 21 22]
  show ?thesis
    by (intro conjI h1 h2 h3 h4 h5 h6 h7 c1 c2 v c9)
qed

section \<open>The cache\<close>

















section \<open>Writes to the students collection\<close>


















section \<open>The write capability\<close>

lemma get_current_token_db: "snd (get_current_token now req d) = d"
  unfolding get_current_token_def Let_def
  by (simp split: option.splits)

lemma depends_current_user_db: "snd (depends_current_user now req d) = d"
proof (cases "get_current_token now req d")
  case (Pair r d')
  with get_current_token_db[of now req d] have "d' = d" by simp
  with Pair show ?thesis
    by (cases r) (simp_all add: depends_current_user_def)
qed

lemma depends_write_user_of_current:
  assumes "fst (depends_current_user now req d) = Inr u"
  shows "depends_write_user now req d = (require_write_user u, d)"
proof -
  from assms depends_current_user_db[of now req d]
  have "depends_current_user now req d = (Inr u, d)"
    by (simp add: prod_eq_iff)
  then show ?thesis by (simp add: depends_write_user_def)
qed

lemma app_db_same: "st\<lparr>app_db := app_db st\<rparr> = st"
  by simp

lemma with_write_user_readonly:
  assumes "fst (depends_current_user now req (app_db st)) = Inr (Some u)" and "is_readonly u"
  shows "with_write_user now req handler st = (Inl Forbidden, st)"
  using assms
  by (simp add: with_write_user_def depends_write_user_of_current require_write_user_def)

lemma with_write_user_writer:
  assumes "fst (depends_current_user now req (app_db st)) = Inr (Some u)" and "\<not> is_readonly u"
  shows "with_write_user now req handler st = handler st"
  using assms
  by (simp add: with_write_user_def depends_write_user_of_current require_write_user_def)

lemma with_current_user_ok:
  assumes "fst (depends_current_user now req (app_db st)) = Inr u"
  shows "with_current_user now req handler st = handler st"
proof -
  from assms depends_current_user_db[of now req "app_db st"]
  have "depends_current_user now req (app_db st) = (Inr u, app_db st)"
    by (simp add: prod_eq_iff)
  then show ?thesis by (simp add: with_current_user_def)
qed

text \<open>
  C7. For an authenticated principal whose user row has \<open>is_readonly = True\<close>, each of the
  five write routes (create, update, delete, CSV import, bulk delete) fails with
  \<open>Forbidden\<close> and returns the state it was given: database, cache and scheduled tasks
  are unchanged. The check depends on the flag alone, so there are two capability
  levels: a principal with \<open>is_readonly = False\<close> passes \<open>require_write_user\<close> and the write
  routes run their handlers, and a read-only principal is still served by the read
  routes.
\<close>

theorem readonly_user_write_forbidden:
  assumes "fst (depends_current_user now req (app_db st)) = Inr (Some u)" and "is_readonly u"
  shows "route_create_student now rnow req payload st = (Inl Forbidden, st)
       \<and> route_update_student now rnow req sid upd st = (Inl Forbidden, st)
       \<and> route_delete_student now rnow req sid st = (Inl Forbidden, st)
       \<and> route_import_csv now req path st = (Inl Forbidden, st)
       \<and> route_bulk_delete now req ids st = (Inl Forbidden, st)
       \<and> route_list_students now rnow req st = list_students rnow st
       \<and> route_get_student now rnow req sid st = get_student rnow sid st
       \<and> (\<forall>v. require_write_user (Some v) = (if is_readonly v then Inl Forbidden else Inr v))
       \<and> (\<forall>now' req' w.
             fst (depends_current_user now' req' (app_db st)) = Inr (Some w) \<and> \<not> is_readonly w
             \<longrightarrow> require_write_user (Some w) = Inr w
               \<and> route_create_student now' rnow req' payload st = create_student rnow payload st
               \<and> route_update_student now' rnow req' sid upd st
                   = update_student rnow sid upd st
               \<and> route_delete_student now' rnow req' sid st = delete_student rnow sid st
               \<and> route_import_csv now' req' path st = import_students_from_csv path st
               \<and> route_bulk_delete now' req' ids st = bulk_delete_students ids st)"
proof -
  note ro = with_write_user_readonly[OF assms]
  have a: "route_create_student now rnow req payload st = (Inl Forbidden, st)"
    unfolding route_create_student_def by (rule ro)
  have b: "route_update_student now rnow req sid upd st = (Inl Forbidden, st)"
    unfolding route_update_student_def by (rule ro)
  have c: "route_delete_student now rnow req sid st = (Inl Forbidden, st)"
    unfolding route_delete_student_def by (rule ro)
  have d: "route_import_csv now req path st = (Inl Forbidden, st)"
    unfolding route_import_csv_def by (rule ro)
  have e: "route_bulk_delete now req ids st = (Inl Forbidden, st)"
    unfolding route_bulk_delete_def by (rule ro)
  have f: "route_list_students now rnow req st = list_students rnow st"
    unfolding route_list_students_def by (rule with_current_user_ok[OF assms(1)])
  have g: "route_get_student now rnow req sid st = get_student rnow sid st"
    unfolding route_get_student_def by (rule with_current_user_ok[OF assms(1)])
  have h: "\<forall>v. require_write_user (Some v) = (if is_readonly v then Inl Forbidden else Inr v)"
    by (simp add: require_write_user_def)
  have i: "require_write_user (Some w) = Inr w
               \<and> route_create_student now' rnow req' payload st = create_student rnow payload st
               \<and> route_update_student now' rnow req' sid upd st
                   = update_student rnow sid upd st
               \<and> route_delete_student now' rnow req' sid st = delete_student rnow sid st
               \<and> route_import_csv now' req' path st = import_students_from_csv path st
               \<and> route_bulk_delete now' req' ids st = bulk_delete_students ids st"
    if w: "fst (depends_current_user now' req' (app_db st)) = Inr (Some w) \<and> \<not> is_readonly w"
    for now' req' w
  proof -
    from w have w1: "fst (depends_current_user now' req' (app_db st)) = Inr (Some w)"
      and w2: "\<not> is_readonly w" by simp_all
    note wr = with_write_user_writer[OF w1 w2]
    show ?thesis
      unfolding route_create_student_def route_update_student_def route_delete_student_def
        route_import_csv_def route_bulk_delete_def
      using w2 by (simp add: wr require_write_user_def)
  qed
  from a b c d e f g h i show ?thesis by blast
qed

theorem readonly_user_write_forbidden_witness:
  "fst (depends_current_user 10 request_bob (app_db app_S)) = Inr (Some bob)
   \<and> is_readonly bob
   \<and> route_create_student 10 200 request_bob petrov_new app_S = (Inl Forbidden, app_S)
   \<and> route_update_student 10 200 request_bob 1 upd_grade_90 app_S = (Inl Forbidden, app_S)
   \<and> route_delete_student 10 200 request_bob 1 app_S = (Inl Forbidden, app_S)
   \<and> route_import_csv 10 request_bob ''students.csv'' app_S = (Inl Forbidden, app_S)
   \<and> route_bulk_delete 10 request_bob [1] app_S = (Inl Forbidden, app_S)
   \<and> fst (depends_current_user 10 request_A (app_db app_S)) = Inr (Some alice)
   \<and> \<not> is_readonly alice
   \<and> route_delete_student 10 200 request_A 1 app_S = delete_student 200 1 app_S
   \<and> students (app_db (snd (delete_student 200 1 app_S))) = []"
proof -
  have h1: "fst (depends_current_user 10 request_bob (app_db app_S)) = Inr (Some bob)"
    by (simp add: auth_defs example_defs)
  have h2: "is_readonly bob"
    by (simp add: bob_def)
  have h3: "fst (depends_current_user 10 request_A (app_db app_S)) = Inr (Some alice)"
    by (simp add: auth_defs example_defs)
  have h4: "\<not> is_readonly alice"
    by (simp add: alice_def)
  have v: "students (app_db (snd (delete_student 200 1 app_S))) = []"
    by (simp add: students_defs example_defs)
  note c = readonly_user_write_forbidden[OF h1 h2, of 200 petrov_new 1 upd_grade_90
      "''students.csv''" "[1]"]
  note c1 = c[THEN conjunct1]
  note c2 = c[THEN conjunct2, THEN conjunct1]
  note c3 = c[THEN conjunct2, THEN conjunct2, THEN conjunct1]
  note c4 = c[THEN conjunct2, THEN conjunct2, THEN conjunct2, THEN conjunct1]
  note c5 = c[THEN conjunct2, THEN conjunct2, THEN conjunct2, THEN conjunct2, THEN conjunct1]
  note c9 = c[THEN conjunct2, THEN conjunct2, THEN conjunct2, THEN conjunct2, THEN conjunct2,
      THEN conjunct2, THEN conjunct2, THEN conjunct2, rule_format, OF conjI[OF h3 h4],
      THEN conjunct2, THEN conjunct2, THEN conjunct2, THEN conjunct1]
  show ?thesis
    by (intro conjI h1 h2 c1 c2 c3 c4 c5 h3 h4 c9 v)
qed

end
